theory Spec2Isabelle
  imports Main "HOL-Library.Word"
begin

unbundle bit_operations_syntax

section \<open>The DBusTransport base object of dbus/dbus-transport.c\<close>

text \<open>
  The development embeds the functions and the two macros of
  \<^verbatim>\<open>dbus/dbus-transport.c\<close> over the struct of
  \<^verbatim>\<open>dbus/dbus-transport-protected.h\<close>.  C identifiers keep their names; a leading
  underscore is dropped because an Isabelle name cannot start with one
  (\<^verbatim>\<open>_dbus_transport_unref\<close> is \<open>dbus_transport_unref\<close>).
  \<^verbatim>\<open>_dbus_transport_open\<close> only forwards to a constructor of another file and is left
  out.

  \<^item> Pointers to objects of other modules (connection, loader, auth conversation, watch,
    vtable) are handles of type \<open>nat\<close>; a pointer that the code tests against
    \<^verbatim>\<open>NULL\<close> is an \<open>option\<close>.
  \<^item> The one transport the functions work on lives in the \<open>transport\<close> field of
    the world; \<open>None\<close> means its memory has been given back by \<^verbatim>\<open>dbus_free\<close>, and
    every later access faults with \<open>Use_After_Free\<close>.  The pointer to it is never
    \<^verbatim>\<open>NULL\<close>, so the assertion \<^verbatim>\<open>transport != NULL\<close> has no counterpart.
  \<^item> A failing \<^verbatim>\<open>_dbus_assert\<close> is the fault \<open>Assert_Failed\<close>, and incrementing
    a count of \<^verbatim>\<open>INT_MAX\<close> is the fault \<open>Signed_Overflow\<close>.  A fault ends the run
    and carries the trace up to it.
  \<^item> Every call that leaves a function of the file (to another module, through the
    vtable, or to \<^verbatim>\<open>_dbus_transport_ref\<close>/\<^verbatim>\<open>_dbus_transport_unref\<close>) is appended to
    the \<open>trace\<close>, together with the transport as it is at the moment of the call.
    Functions of other modules whose result the file uses are parameters (record
    \<open>program\<close>) that work on the rest of the world (\<open>outside\<close>); functions of other
    modules do not write the struct.
  \<^item> Code of a subclass (what the vtable points to) is a list of statements that may
    change the struct, change the rest of the world, branch on either and call back into
    the functions of this file.  Each function that goes through the vtable takes \<open>run\<close>, the way such
    code is executed; \<open>exec n P\<close> is the executable instance, with the nesting depth
    of calls from the file into subclass code bounded by the fuel \<open>n\<close>.
\<close>

subsection \<open>Data\<close>

type_synonym DBusConnection = nat
type_synonym DBusMessageLoader = nat
type_synonym DBusAuth = nat
type_synonym DBusWatch = nat
type_synonym vtable_ptr = nat

text \<open>The two enumeration constants the file compares with or passes on; the other
  members of the enumerations are not told apart.\<close>

datatype DBusResultCode = DBUS_RESULT_DISCONNECTED | DBUS_RESULT_other nat

datatype DBusAuthState = DBUS_AUTH_STATE_AUTHENTICATED | DBUS_AUTH_STATE_other nat

text \<open>\<^verbatim>\<open>struct DBusTransport\<close>; the three one-bit fields are booleans.\<close>

record DBusTransport =
  refcount :: int
  vtable :: vtable_ptr
  connection :: "DBusConnection option"
  loader :: DBusMessageLoader
  auth :: DBusAuth
  disconnected :: bool
  authenticated :: bool
  messages_need_sending :: bool

text \<open>\<^verbatim>\<open>int\<close> is 32 bits wide; incrementing \<^verbatim>\<open>INT_MAX\<close> is undefined
  behaviour and is a fault of the model.\<close>

definition INT_MAX :: int where
  "INT_MAX = 2147483647"

datatype call =
    Transport_Ref
  | Transport_Unref
  | Connection_Ref DBusConnection
  | Connection_Unref DBusConnection
  | Connection_Transport_Error "DBusConnection option" DBusResultCode
  | Watch_Get_Fd DBusWatch
  | Watch_Sanitize_Condition DBusWatch
  | Watch_Ref DBusWatch
  | Watch_Unref DBusWatch
  | Warn
  | Message_Loader_New
  | Message_Loader_Unref DBusMessageLoader
  | Auth_Server_New
  | Auth_Client_New
  | Auth_Unref DBusAuth
  | Auth_Do_Work DBusAuth
  | Vtable_Finalize
  | Vtable_Handle_Watch DBusWatch "32 word"
  | Vtable_Disconnect
  | Vtable_Connection_Set
  | Vtable_Messages_Pending int
  | Vtable_Do_Iteration "32 word" int
  | Free

type_synonym event = "call \<times> DBusTransport option"

datatype error = Assert_Failed | Use_After_Free | Signed_Overflow | Out_Of_Fuel

record 'e world =
  transport :: "DBusTransport option"
  outside :: 'e
  trace :: "event list"

type_synonym 'e result = "(error \<times> event list) + 'e world"

text \<open>Statements of subclass code: \<open>Sub f\<close> is code of the subclass itself, which
  sees and may write the struct and the rest of the world; \<open>Cond b ss ss'\<close> is a
  branch of the subclass on what it sees; the others are calls of the functions below
  on the transport, and \<^verbatim>\<open>dbus_free (transport)\<close>.\<close>

datatype 'e stmt =
    Sub "DBusTransport \<Rightarrow> 'e \<Rightarrow> DBusTransport \<times> 'e"
  | Call_Ref
  | Call_Unref
  | Call_Disconnect
  | Call_Finalize_Base
  | Call_Get_Is_Authenticated
  | Call_Handle_Watch DBusWatch "32 word"
  | Call_Set_Connection "DBusConnection option"
  | Call_Messages_Pending int
  | Call_Do_Iteration "32 word" int
  | Call_Free
  | Cond "DBusTransport \<Rightarrow> 'e \<Rightarrow> bool" "'e stmt list" "'e stmt list"

text \<open>\<^verbatim>\<open>struct DBusTransportVTable\<close>; \<open>None\<close> is a \<^verbatim>\<open>NULL\<close> function pointer.\<close>

record 'e DBusTransportVTable =
  finalize :: "'e stmt list option"
  handle_watch :: "(DBusWatch \<Rightarrow> 32 word \<Rightarrow> 'e stmt list) option"
  disconnect :: "'e stmt list option"
  connection_set :: "'e stmt list option"
  messages_pending :: "(int \<Rightarrow> 'e stmt list) option"
  do_iteration :: "(32 word \<Rightarrow> int \<Rightarrow> 'e stmt list) option"

text \<open>What the file takes from elsewhere: the vtables in memory, the functions of other
  modules whose result the file uses (they work on the rest of the world), and the two
  direction flags of \<^verbatim>\<open>dbus-connection-internal.h\<close>, whose values the file does not
  fix.\<close>

record 'e program =
  vtables :: "vtable_ptr \<Rightarrow> 'e DBusTransportVTable"
  message_loader_new :: "'e \<Rightarrow> DBusMessageLoader option \<times> 'e"
  auth_server_new :: "'e \<Rightarrow> DBusAuth option \<times> 'e"
  auth_client_new :: "'e \<Rightarrow> DBusAuth option \<times> 'e"
  auth_do_work :: "DBusAuth \<Rightarrow> 'e \<Rightarrow> DBusAuthState \<times> 'e"
  watch_get_fd :: "DBusWatch \<Rightarrow> 'e \<Rightarrow> int"
  watch_sanitize_condition :: "DBusWatch \<Rightarrow> 32 word \<Rightarrow> 'e \<Rightarrow> 32 word"
  DBUS_ITERATION_DO_WRITING :: "32 word"
  DBUS_ITERATION_DO_READING :: "32 word"

subsection \<open>Plumbing\<close>

definition record_call :: "call \<Rightarrow> 'e world \<Rightarrow> 'e world" where
  "record_call c w = w\<lparr>trace := trace w @ [(c, transport w)]\<rparr>"

definition fault :: "error \<Rightarrow> 'e world \<Rightarrow> 'e result" where
  "fault e w = Inl (e, trace w)"

definition deref :: "'e world \<Rightarrow> (DBusTransport \<Rightarrow> 'e result) \<Rightarrow> 'e result" where
  "deref w k = (case transport w of None \<Rightarrow> fault Use_After_Free w | Some t \<Rightarrow> k t)"

definition store :: "DBusTransport \<Rightarrow> 'e world \<Rightarrow> 'e world" where
  "store t w = w\<lparr>transport := Some t\<rparr>"

definition and_then :: "'e result \<Rightarrow> ('e world \<Rightarrow> 'e result) \<Rightarrow> 'e result" where
  "and_then r k = (case r of Inl f \<Rightarrow> Inl f | Inr w \<Rightarrow> k w)"

definition trace_of :: "'e result \<Rightarrow> event list" where
  "trace_of r = (case r of Inl f \<Rightarrow> snd f | Inr w \<Rightarrow> trace w)"

definition calls :: "event list \<Rightarrow> call list" where
  "calls es = map fst es"

subsection \<open>Reference counting and the two macros\<close>

definition dbus_transport_ref :: "'e world \<Rightarrow> 'e result" where
  "dbus_transport_ref w0 =
     (let w = record_call Transport_Ref w0 in
      deref w (\<lambda>t.
        if refcount t = INT_MAX then fault Signed_Overflow w
        else Inr (store (t\<lparr>refcount := refcount t + 1\<rparr>) w)))"

definition dbus_transport_unref ::
  "('e stmt list \<Rightarrow> 'e world \<Rightarrow> 'e result) \<Rightarrow> 'e program \<Rightarrow> 'e world \<Rightarrow> 'e result" where
  "dbus_transport_unref run P w0 =
     (let w = record_call Transport_Unref w0 in
      deref w (\<lambda>t.
        if \<not> 0 < refcount t then fault Assert_Failed w
        else
          let t' = t\<lparr>refcount := refcount t - 1\<rparr>; w' = store t' w in
          if refcount t' = 0 then
            (case finalize (vtables P (vtable t')) of
               None \<Rightarrow> fault Assert_Failed w'
             | Some fin \<Rightarrow> run fin (record_call Vtable_Finalize w'))
          else Inr w'))"

definition DBUS_TRANSPORT_HOLD_REF :: "'e world \<Rightarrow> 'e result" where
  "DBUS_TRANSPORT_HOLD_REF w =
     and_then (dbus_transport_ref w) (\<lambda>w1.
       deref w1 (\<lambda>t.
         case connection t of
           None \<Rightarrow> Inr w1
         | Some c \<Rightarrow> Inr (record_call (Connection_Ref c) w1)))"

definition DBUS_TRANSPORT_RELEASE_REF ::
  "('e stmt list \<Rightarrow> 'e world \<Rightarrow> 'e result) \<Rightarrow> 'e program \<Rightarrow> 'e world \<Rightarrow> 'e result" where
  "DBUS_TRANSPORT_RELEASE_REF run P w =
     deref w (\<lambda>t.
       dbus_transport_unref run P
         (case connection t of
            None \<Rightarrow> w
          | Some c \<Rightarrow> record_call (Connection_Unref c) w))"

subsection \<open>Construction\<close>

definition dbus_transport_init_base ::
  "'e program \<Rightarrow> vtable_ptr \<Rightarrow> bool \<Rightarrow> 'e world \<Rightarrow> (error \<times> event list) + (bool \<times> 'e world)" where
  "dbus_transport_init_base P vt server w =
     (case message_loader_new P (outside w) of
        (l, e1) \<Rightarrow>
          let w1 = (record_call Message_Loader_New w)\<lparr>outside := e1\<rparr> in
          (case l of
             None \<Rightarrow> Inr (False, w1)
           | Some ld \<Rightarrow>
               (case (if server then auth_server_new P e1 else auth_client_new P e1) of
                  (a, e2) \<Rightarrow>
                    let w2 = (record_call (if server then Auth_Server_New else Auth_Client_New) w1)
                               \<lparr>outside := e2\<rparr> in
                    (case a of
                       None \<Rightarrow> Inr (False, record_call (Message_Loader_Unref ld) w2)
                     | Some au \<Rightarrow>
                         (case transport w2 of
                            None \<Rightarrow> Inl (Use_After_Free, trace w2)
                          | Some t \<Rightarrow>
                              Inr (True,
                                store (t\<lparr>refcount := 1, vtable := vt, loader := ld,
                                         auth := au, authenticated := False,
                                         messages_need_sending := False,
                                         disconnected := False\<rparr>) w2))))))"

subsection \<open>Disconnection and finalization\<close>

definition dbus_transport_disconnect ::
  "('e stmt list \<Rightarrow> 'e world \<Rightarrow> 'e result) \<Rightarrow> 'e program \<Rightarrow> 'e world \<Rightarrow> 'e result" where
  "dbus_transport_disconnect run P w =
     deref w (\<lambda>t.
       case disconnect (vtables P (vtable t)) of
         None \<Rightarrow> fault Assert_Failed w
       | Some cb \<Rightarrow>
           if disconnected t then Inr w
           else
             and_then (DBUS_TRANSPORT_HOLD_REF w) (\<lambda>w1.
             and_then (run cb (record_call Vtable_Disconnect w1)) (\<lambda>w2.
             deref w2 (\<lambda>t2.
               DBUS_TRANSPORT_RELEASE_REF run P (store (t2\<lparr>disconnected := True\<rparr>) w2)))))"

definition dbus_transport_finalize_base ::
  "('e stmt list \<Rightarrow> 'e world \<Rightarrow> 'e result) \<Rightarrow> 'e program \<Rightarrow> 'e world \<Rightarrow> 'e result" where
  "dbus_transport_finalize_base run P w =
     deref w (\<lambda>t.
       and_then (if \<not> disconnected t then dbus_transport_disconnect run P w else Inr w) (\<lambda>w1.
       deref w1 (\<lambda>t1.
         let w2 = record_call (Message_Loader_Unref (loader t1)) w1 in
         deref w2 (\<lambda>t2. Inr (record_call (Auth_Unref (auth t2)) w2)))))"

definition dbus_transport_get_is_connected :: "'e world \<Rightarrow> (error \<times> event list) + bool" where
  "dbus_transport_get_is_connected w =
     (case transport w of
        None \<Rightarrow> Inl (Use_After_Free, trace w)
      | Some t \<Rightarrow> Inr (\<not> disconnected t))"

subsection \<open>Authentication query\<close>

definition dbus_transport_get_is_authenticated ::
  "'e program \<Rightarrow> 'e world \<Rightarrow> (error \<times> event list) + (bool \<times> 'e world)" where
  "dbus_transport_get_is_authenticated P w =
     (case transport w of
        None \<Rightarrow> Inl (Use_After_Free, trace w)
      | Some t \<Rightarrow>
          if authenticated t then Inr (True, w)
          else
            let (st, e') = auth_do_work P (auth t) (outside w);
                b = (st = DBUS_AUTH_STATE_AUTHENTICATED)
            in Inr (b, store (t\<lparr>authenticated := b\<rparr>)
                         ((record_call (Auth_Do_Work (auth t)) w)\<lparr>outside := e'\<rparr>)))"

subsection \<open>Operations that dispatch to the subclass\<close>

definition dbus_transport_handle_watch ::
  "('e stmt list \<Rightarrow> 'e world \<Rightarrow> 'e result) \<Rightarrow> 'e program \<Rightarrow> DBusWatch \<Rightarrow> 32 word \<Rightarrow>
     'e world \<Rightarrow> 'e result" where
  "dbus_transport_handle_watch run P watch condition w =
     deref w (\<lambda>t.
       case handle_watch (vtables P (vtable t)) of
         None \<Rightarrow> fault Assert_Failed w
       | Some cb \<Rightarrow>
           if disconnected t then
             Inr (record_call (Connection_Transport_Error (connection t) DBUS_RESULT_DISCONNECTED) w)
           else
             let wa = record_call (Watch_Get_Fd watch) w in
             if watch_get_fd P watch (outside wa) < 0 then Inr (record_call Warn wa)
             else
               let wb = record_call (Watch_Sanitize_Condition watch) wa;
                   condition' = watch_sanitize_condition P watch condition (outside wb)
               in
                 and_then (DBUS_TRANSPORT_HOLD_REF wb) (\<lambda>w1.
                 and_then (run (cb watch condition')
                            (record_call (Vtable_Handle_Watch watch condition')
                               (record_call (Watch_Ref watch) w1))) (\<lambda>w2.
                 DBUS_TRANSPORT_RELEASE_REF run P (record_call (Watch_Unref watch) w2))))"

definition dbus_transport_set_connection ::
  "('e stmt list \<Rightarrow> 'e world \<Rightarrow> 'e result) \<Rightarrow> 'e program \<Rightarrow> DBusConnection option \<Rightarrow>
     'e world \<Rightarrow> 'e result" where
  "dbus_transport_set_connection run P conn w =
     deref w (\<lambda>t.
       case connection_set (vtables P (vtable t)) of
         None \<Rightarrow> fault Assert_Failed w
       | Some cb \<Rightarrow>
           if connection t \<noteq> None then fault Assert_Failed w
           else
             and_then (DBUS_TRANSPORT_HOLD_REF (store (t\<lparr>connection := conn\<rparr>) w)) (\<lambda>w1.
             and_then (run cb (record_call Vtable_Connection_Set w1))
               (DBUS_TRANSPORT_RELEASE_REF run P)))"

definition dbus_transport_messages_pending ::
  "('e stmt list \<Rightarrow> 'e world \<Rightarrow> 'e result) \<Rightarrow> 'e program \<Rightarrow> int \<Rightarrow> 'e world \<Rightarrow> 'e result" where
  "dbus_transport_messages_pending run P queue_length w =
     deref w (\<lambda>t.
       case messages_pending (vtables P (vtable t)) of
         None \<Rightarrow> fault Assert_Failed w
       | Some cb \<Rightarrow>
           if disconnected t then
             Inr (record_call (Connection_Transport_Error (connection t) DBUS_RESULT_DISCONNECTED) w)
           else
             and_then (DBUS_TRANSPORT_HOLD_REF
                         (store (t\<lparr>messages_need_sending := (0 < queue_length)\<rparr>) w)) (\<lambda>w1.
             and_then (run (cb queue_length)
                         (record_call (Vtable_Messages_Pending queue_length) w1))
               (DBUS_TRANSPORT_RELEASE_REF run P)))"

definition dbus_transport_do_iteration ::
  "('e stmt list \<Rightarrow> 'e world \<Rightarrow> 'e result) \<Rightarrow> 'e program \<Rightarrow> 32 word \<Rightarrow> int \<Rightarrow>
     'e world \<Rightarrow> 'e result" where
  "dbus_transport_do_iteration run P flags timeout_milliseconds w =
     deref w (\<lambda>t.
       case do_iteration (vtables P (vtable t)) of
         None \<Rightarrow> fault Assert_Failed w
       | Some cb \<Rightarrow>
           if flags AND (DBUS_ITERATION_DO_WRITING P OR DBUS_ITERATION_DO_READING P) = 0
           then Inr w
           else if disconnected t then
             Inr (record_call (Connection_Transport_Error (connection t) DBUS_RESULT_DISCONNECTED) w)
           else
             and_then (DBUS_TRANSPORT_HOLD_REF w) (\<lambda>w1.
             and_then (run (cb flags timeout_milliseconds)
                         (record_call (Vtable_Do_Iteration flags timeout_milliseconds) w1))
               (DBUS_TRANSPORT_RELEASE_REF run P)))"

subsection \<open>Running subclass code\<close>

definition step ::
  "('e stmt list \<Rightarrow> 'e world \<Rightarrow> 'e result) \<Rightarrow> 'e program \<Rightarrow> 'e stmt \<Rightarrow> 'e world \<Rightarrow> 'e result" where
  "step run P s w =
     (case s of
        Sub f \<Rightarrow>
          deref w (\<lambda>t. case f t (outside w) of (t', e') \<Rightarrow> Inr (store t' (w\<lparr>outside := e'\<rparr>)))
      | Call_Ref \<Rightarrow> dbus_transport_ref w
      | Call_Unref \<Rightarrow> dbus_transport_unref run P w
      | Call_Disconnect \<Rightarrow> dbus_transport_disconnect run P w
      | Call_Finalize_Base \<Rightarrow> dbus_transport_finalize_base run P w
      | Call_Get_Is_Authenticated \<Rightarrow>
          (case dbus_transport_get_is_authenticated P w of
             Inl f \<Rightarrow> Inl f
           | Inr (b, w') \<Rightarrow> Inr w')
      | Call_Handle_Watch watch condition \<Rightarrow> dbus_transport_handle_watch run P watch condition w
      | Call_Set_Connection conn \<Rightarrow> dbus_transport_set_connection run P conn w
      | Call_Messages_Pending n \<Rightarrow> dbus_transport_messages_pending run P n w
      | Call_Do_Iteration flags ms \<Rightarrow> dbus_transport_do_iteration run P flags ms w
      | Call_Free \<Rightarrow> deref w (\<lambda>t. Inr ((record_call Free w)\<lparr>transport := None\<rparr>))
      | Cond b ss ss' \<Rightarrow> deref w (\<lambda>t. run (if b t (outside w) then ss else ss') w))"

fun run_stmts ::
  "('e stmt \<Rightarrow> 'e world \<Rightarrow> 'e result) \<Rightarrow> 'e stmt list \<Rightarrow> 'e world \<Rightarrow> 'e result" where
  "run_stmts st [] w = Inr w"
| "run_stmts st (s # ss) w = and_then (st s w) (run_stmts st ss)"

text \<open>Fuel bounds the depth of calls from the file into subclass code, a branch taken
  counting as one level; at depth zero nothing runs.\<close>

primrec exec :: "nat \<Rightarrow> 'e program \<Rightarrow> 'e stmt list \<Rightarrow> 'e world \<Rightarrow> 'e result" where
  "exec 0 P = (\<lambda>ss w. fault Out_Of_Fuel w)"
| "exec (Suc n) P = run_stmts (step (exec n P) P)"

subsection \<open>Vocabulary for the statements\<close>

text \<open>What \<^verbatim>\<open>DBUS_TRANSPORT_HOLD_REF\<close> appends to the trace when the struct is \<open>t\<close>, what
  \<^verbatim>\<open>DBUS_TRANSPORT_RELEASE_REF\<close> appends when the struct is \<open>t\<close> and the count stays
  positive, and the world in which a subclass operation \<open>c\<close> starts when the guard was
  taken with the struct being \<open>t\<close>.\<close>

definition acquired :: "DBusTransport \<Rightarrow> event list" where
  "acquired t =
     (Transport_Ref, Some t) #
     (case connection t of
        None \<Rightarrow> []
      | Some c \<Rightarrow> [(Connection_Ref c, Some (t\<lparr>refcount := refcount t + 1\<rparr>))])"

definition released :: "DBusTransport \<Rightarrow> event list" where
  "released t =
     (case connection t of None \<Rightarrow> [] | Some c \<Rightarrow> [(Connection_Unref c, Some t)])
     @ [(Transport_Unref, Some t)]"

definition dispatch_point :: "call \<Rightarrow> DBusTransport \<Rightarrow> 'e world \<Rightarrow> 'e world" where
  "dispatch_point c t w =
     w\<lparr>transport := Some (t\<lparr>refcount := refcount t + 1\<rparr>),
       trace := trace w @ acquired t @ [(c, Some (t\<lparr>refcount := refcount t + 1\<rparr>))]\<rparr>"



subsection \<open>Vocabulary for reference counting\<close>

text \<open>The count after a sequence of \<^verbatim>\<open>_dbus_transport_ref\<close> and
  \<^verbatim>\<open>_dbus_transport_unref\<close> calls by the owner, starting from \<open>r\<close>.\<close>

fun balance :: "int \<Rightarrow> 'e stmt list \<Rightarrow> int" where
  "balance r [] = r"
| "balance r (Call_Ref # ss) = balance (r + 1) ss"
| "balance r (Call_Unref # ss) = balance (r - 1) ss"
| "balance r (s # ss) = balance r ss"

fun ref_or_unref :: "'e stmt \<Rightarrow> bool" where
  "ref_or_unref Call_Ref = True"
| "ref_or_unref Call_Unref = True"
| "ref_or_unref s = False"

subsection \<open>Vocabulary for the authentication cache\<close>

text \<open>A consultation is a call of \<^verbatim>\<open>_dbus_auth_do_work\<close>.  The cache is settled in a world
  when the transport, if it is still alive, has \<open>authenticated\<close> set.  A statement of
  subclass code is polite when it does not clear the flag: the calls into the file are
  polite as such, code of the subclass itself is when it leaves a set flag set, and a
  branch is when both its arms are.  A program is polite when all the code its vtables
  point to is.\<close>

fun is_consultation :: "call \<Rightarrow> bool" where
  "is_consultation (Auth_Do_Work a) = True"
| "is_consultation c = False"

definition consultations :: "event list \<Rightarrow> nat" where
  "consultations es = length (filter (\<lambda>ev. is_consultation (fst ev)) es)"

definition settled :: "'e world \<Rightarrow> bool" where
  "settled w = (case transport w of None \<Rightarrow> True | Some t \<Rightarrow> authenticated t)"

fun polite :: "'e stmt \<Rightarrow> bool" where
  "polite (Sub f) = (\<forall>t e. authenticated t \<longrightarrow> authenticated (fst (f t e)))"
| "polite (Cond b ss ss') = (list_all polite ss \<and> list_all polite ss')"
| "polite s = True"

definition polite_vtable :: "'e DBusTransportVTable \<Rightarrow> bool" where
  "polite_vtable v =
     ((\<forall>c. finalize v = Some c \<longrightarrow> list_all polite c)
    \<and> (\<forall>c watch condition. handle_watch v = Some c \<longrightarrow> list_all polite (c watch condition))
    \<and> (\<forall>c. disconnect v = Some c \<longrightarrow> list_all polite c)
    \<and> (\<forall>c. connection_set v = Some c \<longrightarrow> list_all polite c)
    \<and> (\<forall>c queue_length. messages_pending v = Some c \<longrightarrow> list_all polite (c queue_length))
    \<and> (\<forall>c flags ms. do_iteration v = Some c \<longrightarrow> list_all polite (c flags ms)))"

definition polite_program :: "'e program \<Rightarrow> bool" where
  "polite_program P = (\<forall>p. polite_vtable (vtables P p))"

text \<open>\<open>cache_kept k w\<close>: the cache is settled and \<open>k\<close> consultations have been
  recorded; \<open>result_kept\<close> lifts this to results (a fault keeps it), and \<open>run_keeps\<close>
  says that running polite code keeps it.\<close>

definition cache_kept :: "nat \<Rightarrow> 'e world \<Rightarrow> bool" where
  "cache_kept k w = (settled w \<and> consultations (trace w) = k)"

definition result_kept :: "nat \<Rightarrow> 'e result \<Rightarrow> bool" where
  "result_kept k r = (case r of Inl f \<Rightarrow> True | Inr w \<Rightarrow> cache_kept k w)"

definition run_keeps :: "('e stmt list \<Rightarrow> 'e world \<Rightarrow> 'e result) \<Rightarrow> nat \<Rightarrow> bool" where
  "run_keeps run k = (\<forall>c w. list_all polite c \<and> cache_kept k w \<longrightarrow> result_kept k (run c w))"

subsection \<open>Vocabulary for traces\<close>

text \<open>A result grows a trace when its own trace, also that of a fault, starts with it:
  nothing recorded is taken back.\<close>

definition grows :: "event list \<Rightarrow> 'e result \<Rightarrow> bool" where
  "grows tr r = (\<exists>es. trace_of r = tr @ es)"


subsection \<open>A concrete subclass\<close>

text \<open>Modelled from the spec: the vtable of a concrete transport and the functions of the
  other modules, none of which is among the sources (\<^verbatim>\<open>dbus-transport-unix.c\<close>,
  \<^verbatim>\<open>dbus-auth.c\<close>, \<^verbatim>\<open>dbus-watch.c\<close>, \<^verbatim>\<open>dbus-message.c\<close>).  The subclass is as the
  header and the specification prescribe: \<open>finalize\<close> chains up to
  \<^verbatim>\<open>_dbus_transport_finalize_base\<close> (``chained up to from subclass finalizers'') and then
  frees the transport (``the finalize method must free the transport''); the other
  operations do nothing to the struct.  The rest of the world is a counter of how often
  the auth conversation has been advanced; the conversation reports the authenticated
  state from its third step on.  The allocators hand out the loader 1 and the auth
  conversations 2 (server) and 3 (client).\<close>

definition unix_vtable :: "nat DBusTransportVTable" where
  "unix_vtable =
     \<lparr>finalize = Some [Call_Finalize_Base, Call_Free],
      handle_watch = Some (\<lambda>watch condition. []),
      disconnect = Some [],
      connection_set = Some [],
      messages_pending = Some (\<lambda>queue_length. []),
      do_iteration = Some (\<lambda>flags timeout_milliseconds. [])\<rparr>"

definition unix_program :: "nat program" where
  "unix_program =
     \<lparr>vtables = (\<lambda>p. unix_vtable),
      message_loader_new = (\<lambda>e. (Some 1, e)),
      auth_server_new = (\<lambda>e. (Some 2, e)),
      auth_client_new = (\<lambda>e. (Some 3, e)),
      auth_do_work = (\<lambda>a e. (if 2 \<le> e then DBUS_AUTH_STATE_AUTHENTICATED
                               else DBUS_AUTH_STATE_other e, e + 1)),
      watch_get_fd = (\<lambda>watch e. 4),
      watch_sanitize_condition = (\<lambda>watch condition e. condition),
      DBUS_ITERATION_DO_WRITING = 1,
      DBUS_ITERATION_DO_READING = 2\<rparr>"

text \<open>A program whose \<open>handle_watch\<close> disconnects its own transport and drops a
  reference to it, as a connection does that lets go of a transport that failed.\<close>

definition reentrant_program :: "nat program" where
  "reentrant_program =
     unix_program\<lparr>vtables :=
       (\<lambda>p. unix_vtable\<lparr>handle_watch :=
               Some (\<lambda>watch condition. [Call_Disconnect, Call_Unref])\<rparr>)\<rparr>"

text \<open>Zeroed memory for a transport, and the transport that
  \<open>dbus_transport_init_base\<close> makes of it for the client side.\<close>

definition zeroed :: DBusTransport where
  "zeroed =
     \<lparr>refcount = 0, vtable = 0, connection = None, loader = 0, auth = 0,
      disconnected = False, authenticated = False, messages_need_sending = False\<rparr>"

definition blank :: "nat world" where
  "blank = \<lparr>transport = Some zeroed, outside = 0, trace = []\<rparr>"

definition constructed :: "nat world" where
  "constructed =
     (case dbus_transport_init_base unix_program 0 False blank of
        Inr (ok, w) \<Rightarrow> w
      | Inl f \<Rightarrow> blank)"

text \<open>The transport right after construction, written out, and a world that holds a
  given transport and has recorded nothing yet.\<close>

definition fresh :: DBusTransport where
  "fresh =
     \<lparr>refcount = 1, vtable = 0, connection = None, loader = 1, auth = 3,
      disconnected = False, authenticated = False, messages_need_sending = False\<rparr>"

definition holding :: "DBusTransport \<Rightarrow> nat world" where
  "holding t = \<lparr>transport = Some t, outside = 0, trace = []\<rparr>"

text \<open>Modelled from the spec: a subclass whose \<open>disconnect\<close> tears the connection
  down (``a disconnect callback tearing down the connection'', ``the protected call can
  reenter''), and the connection, on its way down, disconnects its transport: the first
  time the operation is entered it notes that it is closing and calls
  \<^verbatim>\<open>_dbus_transport_disconnect\<close>; entered while closing it does nothing.  The rest of
  the world is that note.  The other operations are those of the subclass above.  With
  it, a world that holds the transport right after construction, not closing.\<close>

definition reentering_program :: "bool program" where
  "reentering_program =
     \<lparr>vtables = (\<lambda>p.
        \<lparr>finalize = Some [Call_Finalize_Base, Call_Free],
         handle_watch = Some (\<lambda>watch condition. []),
         disconnect =
           Some [Cond (\<lambda>t closing. closing) []
                   [Sub (\<lambda>t closing. (t, True)), Call_Disconnect]],
         connection_set = Some [],
         messages_pending = Some (\<lambda>queue_length. []),
         do_iteration = Some (\<lambda>flags timeout_milliseconds. [])\<rparr>),
      message_loader_new = (\<lambda>e. (Some 1, e)),
      auth_server_new = (\<lambda>e. (Some 2, e)),
      auth_client_new = (\<lambda>e. (Some 3, e)),
      auth_do_work = (\<lambda>a e. (DBUS_AUTH_STATE_AUTHENTICATED, e)),
      watch_get_fd = (\<lambda>watch e. 4),
      watch_sanitize_condition = (\<lambda>watch condition e. condition),
      DBUS_ITERATION_DO_WRITING = 1,
      DBUS_ITERATION_DO_READING = 2\<rparr>"

definition open_transport :: "bool world" where
  "open_transport = \<lparr>transport = Some fresh, outside = False, trace = []\<rparr>"

text \<open>The same program with an allocator for the loader, or for the auth conversation,
  that fails.\<close>

definition no_loader_program :: "nat program" where
  "no_loader_program = unix_program\<lparr>message_loader_new := (\<lambda>e. (None, e))\<rparr>"

definition no_auth_program :: "nat program" where
  "no_auth_program =
     unix_program\<lparr>auth_server_new := (\<lambda>e. (None, e)), auth_client_new := (\<lambda>e. (None, e))\<rparr>"

section \<open>Basic facts\<close>

lemma record_call_simps [simp]:
  "transport (record_call c w) = transport w"
  "outside (record_call c w) = outside w"
  "trace (record_call c w) = trace w @ [(c, transport w)]"
  by (simp_all add: record_call_def)

lemma store_simps [simp]:
  "transport (store t w) = Some t"
  "outside (store t w) = outside w"
  "trace (store t w) = trace w"
  by (simp_all add: store_def)

lemma deref_Some [simp]: "transport w = Some t \<Longrightarrow> deref w k = k t"
  by (simp add: deref_def)

lemma deref_None [simp]: "transport w = None \<Longrightarrow> deref w k = Inl (Use_After_Free, trace w)"
  by (simp add: deref_def fault_def)

lemma and_then_simps [simp]:
  "and_then (Inr w) k = k w"
  "and_then (Inl f) k = Inl f"
  by (simp_all add: and_then_def)

lemma trace_of_simps [simp]:
  "trace_of (Inr w) = trace w"
  "trace_of (Inl (e, tr)) = tr"
  by (simp_all add: trace_of_def)

text \<open>The acquiring macro succeeds unless the count would overflow; the releasing macro
  returns without finalizing when another reference is left.\<close>

lemma hold_ref:
  assumes "transport w = Some t" and "refcount t \<noteq> INT_MAX"
  shows "DBUS_TRANSPORT_HOLD_REF w =
           Inr (w\<lparr>transport := Some (t\<lparr>refcount := refcount t + 1\<rparr>),
                  trace := trace w @ acquired t\<rparr>)"
  using assms
  by (simp add: DBUS_TRANSPORT_HOLD_REF_def dbus_transport_ref_def acquired_def
      record_call_def store_def split: option.split)

lemma hold_ref_dispatch:
  assumes "transport w = Some t" and "refcount t \<noteq> INT_MAX"
  shows "\<exists>w1. DBUS_TRANSPORT_HOLD_REF w = Inr w1 \<and> record_call c w1 = dispatch_point c t w"
  using assms by (simp add: hold_ref dispatch_point_def record_call_def)

lemma release_ref:
  assumes "transport w = Some t" and "1 < refcount t"
  shows "DBUS_TRANSPORT_RELEASE_REF run P w =
           Inr (w\<lparr>transport := Some (t\<lparr>refcount := refcount t - 1\<rparr>),
                  trace := trace w @ released t\<rparr>)"
  using assms
  by (simp add: DBUS_TRANSPORT_RELEASE_REF_def dbus_transport_unref_def released_def
      record_call_def store_def Let_def split: option.split)

lemma disconnect_first:
  assumes "transport w = Some t" and "\<not> disconnected t"
    and "disconnect (vtables P (vtable t)) = Some cb" and "refcount t < INT_MAX"
    and "run cb (dispatch_point Vtable_Disconnect t w) = Inr w2"
    and "transport w2 = Some t2" and "1 < refcount t2"
  shows "dbus_transport_disconnect run P w =
           Inr (w2\<lparr>transport := Some (t2\<lparr>disconnected := True, refcount := refcount t2 - 1\<rparr>),
                   trace := trace w2 @ released (t2\<lparr>disconnected := True\<rparr>)\<rparr>)"
proof -
  obtain w1 where "DBUS_TRANSPORT_HOLD_REF w = Inr w1"
    and "record_call Vtable_Disconnect w1 = dispatch_point Vtable_Disconnect t w"
    using hold_ref_dispatch[of w t Vtable_Disconnect] assms by auto
  then show ?thesis
    using assms by (simp add: dbus_transport_disconnect_def release_ref store_def)
qed

lemma disconnect_again:
  assumes "transport w = Some t" and "disconnected t"
    and "disconnect (vtables P (vtable t)) \<noteq> None"
  shows "dbus_transport_disconnect run P w = Inr w"
  using assms by (auto simp: dbus_transport_disconnect_def)

lemma disconnect_repeat:
  assumes "transport w = Some t" and "disconnected t"
    and "disconnect (vtables P (vtable t)) \<noteq> None"
  shows "run_stmts (step run P) (replicate n Call_Disconnect) w = Inr w"
  using assms by (induction n) (simp_all add: step_def disconnect_again)

lemmas api_defs =
  dbus_transport_ref_def dbus_transport_unref_def DBUS_TRANSPORT_HOLD_REF_def
  DBUS_TRANSPORT_RELEASE_REF_def dbus_transport_disconnect_def
  dbus_transport_finalize_base_def dbus_transport_handle_watch_def
  dbus_transport_set_connection_def dbus_transport_messages_pending_def
  dbus_transport_do_iteration_def dbus_transport_get_is_authenticated_def
  step_def fault_def INT_MAX_def

lemmas fixture_defs =
  unix_program_def unix_vtable_def fresh_def holding_def
  no_loader_program_def no_auth_program_def blank_def zeroed_def reentrant_program_def

section \<open>Operations on a disconnected transport\<close>

text \<open>
  Claim C3.  On a transport whose \<open>disconnected\<close> flag is set, each of
  \<^verbatim>\<open>_dbus_transport_handle_watch\<close>, \<^verbatim>\<open>_dbus_transport_messages_pending\<close> and
  \<^verbatim>\<open>_dbus_transport_do_iteration\<close> (the latter with a read or write direction among its
  flags) makes exactly one call, \<^verbatim>\<open>_dbus_connection_transport_error\<close> with the
  transport's connection and \<^verbatim>\<open>DBUS_RESULT_DISCONNECTED\<close>, and returns; nothing else of
  the world changes, and the result is the same whatever running subclass code would do,
  so that no vtable operation is entered.  The vtable entries are not \<^verbatim>\<open>NULL\<close>, as the
  assertion at the head of each function demands.
\<close>

theorem C3_disconnected_reports_error:
  assumes "transport w = Some t" and "disconnected t"
    and "handle_watch (vtables P (vtable t)) \<noteq> None"
    and "messages_pending (vtables P (vtable t)) \<noteq> None"
    and "do_iteration (vtables P (vtable t)) \<noteq> None"
    and "flags AND (DBUS_ITERATION_DO_WRITING P OR DBUS_ITERATION_DO_READING P) \<noteq> 0"
  shows "dbus_transport_handle_watch run P watch condition w =
           Inr (w\<lparr>trace := trace w @
             [(Connection_Transport_Error (connection t) DBUS_RESULT_DISCONNECTED, Some t)]\<rparr>)
       \<and> dbus_transport_messages_pending run P queue_length w =
           Inr (w\<lparr>trace := trace w @
             [(Connection_Transport_Error (connection t) DBUS_RESULT_DISCONNECTED, Some t)]\<rparr>)
       \<and> dbus_transport_do_iteration run P flags timeout_milliseconds w =
           Inr (w\<lparr>trace := trace w @
             [(Connection_Transport_Error (connection t) DBUS_RESULT_DISCONNECTED, Some t)]\<rparr>)"
  using assms
  by (auto simp: dbus_transport_handle_watch_def dbus_transport_messages_pending_def
      dbus_transport_do_iteration_def record_call_def)

theorem C3_disconnected_reports_error_witness:
  "calls (trace_of (dbus_transport_handle_watch (exec 1 unix_program) unix_program 5 1
      (holding (fresh\<lparr>connection := Some 7, disconnected := True\<rparr>)))) =
     [Connection_Transport_Error (Some 7) DBUS_RESULT_DISCONNECTED]
   \<and> calls (trace_of (dbus_transport_messages_pending (exec 1 unix_program) unix_program 3
      (holding (fresh\<lparr>connection := Some 7, disconnected := True\<rparr>)))) =
     [Connection_Transport_Error (Some 7) DBUS_RESULT_DISCONNECTED]
   \<and> calls (trace_of (dbus_transport_do_iteration (exec 1 unix_program) unix_program 2 (- 1)
      (holding (fresh\<lparr>connection := Some 7, disconnected := True\<rparr>)))) =
     [Connection_Transport_Error (Some 7) DBUS_RESULT_DISCONNECTED]"
  using C3_disconnected_reports_error
    [where w = "holding (fresh\<lparr>connection := Some 7, disconnected := True\<rparr>)"
       and t = "fresh\<lparr>connection := Some 7, disconnected := True\<rparr>"
       and P = unix_program and flags = 2 and run = "exec 1 unix_program"
       and watch = 5 and condition = 1 and queue_length = 3 and timeout_milliseconds = "- 1"]
  by (simp add: fixture_defs calls_def)

text \<open>
  Claim C10.  When the transport is already disconnected,
  \<^verbatim>\<open>_dbus_transport_messages_pending\<close> returns with the struct exactly as it was, whatever
  the queue length: \<open>messages_need_sending\<close> and every other field keep their values,
  the rest of the world is untouched, and the only call made is the error report to the
  connection.
\<close>

theorem C10_messages_pending_disconnected_keeps_state:
  assumes "transport w = Some t" and "disconnected t"
    and "messages_pending (vtables P (vtable t)) \<noteq> None"
  shows "\<exists>w'. dbus_transport_messages_pending run P queue_length w = Inr w'
            \<and> transport w' = Some t
            \<and> outside w' = outside w
            \<and> calls (trace w') = calls (trace w) @
                 [Connection_Transport_Error (connection t) DBUS_RESULT_DISCONNECTED]"
  using assms
  by (auto simp: dbus_transport_messages_pending_def calls_def)

theorem C10_messages_pending_disconnected_keeps_state_witness:
  "\<exists>w'. dbus_transport_messages_pending (exec 1 unix_program) unix_program 9
           (holding (fresh\<lparr>disconnected := True\<rparr>)) = Inr w'
      \<and> transport w' = Some (fresh\<lparr>disconnected := True\<rparr>)
      \<and> outside w' = 0
      \<and> calls (trace w') = [Connection_Transport_Error None DBUS_RESULT_DISCONNECTED]"
  using C10_messages_pending_disconnected_keeps_state
    [where w = "holding (fresh\<lparr>disconnected := True\<rparr>)"
       and t = "fresh\<lparr>disconnected := True\<rparr>" and P = unix_program
       and run = "exec 1 unix_program" and queue_length = 9]
  by (simp add: fixture_defs calls_def)

section \<open>Synchronous iteration\<close>

text \<open>
  Claim C9.  \<^verbatim>\<open>_dbus_transport_do_iteration\<close> with flags that have neither the writing nor
  the reading direction returns the world as it got it: no call at all is made, no
  field changes, and no error is reported, also when the transport is disconnected.
  With a direction among the flags, a disconnected transport gets the error report and
  nothing else, and a connected one has the subclass \<open>do_iteration\<close> run between the
  acquiring and the releasing macro.
\<close>

theorem C9_no_direction_is_noop:
  assumes "transport w = Some t" and "do_iteration (vtables P (vtable t)) = Some cb"
  shows "(flags AND (DBUS_ITERATION_DO_WRITING P OR DBUS_ITERATION_DO_READING P) = 0 \<longrightarrow>
            dbus_transport_do_iteration run P flags timeout_milliseconds w = Inr w)
       \<and> (flags AND (DBUS_ITERATION_DO_WRITING P OR DBUS_ITERATION_DO_READING P) \<noteq> 0
            \<and> disconnected t \<longrightarrow>
            dbus_transport_do_iteration run P flags timeout_milliseconds w =
              Inr (w\<lparr>trace := trace w @
                [(Connection_Transport_Error (connection t) DBUS_RESULT_DISCONNECTED, Some t)]\<rparr>))
       \<and> (flags AND (DBUS_ITERATION_DO_WRITING P OR DBUS_ITERATION_DO_READING P) \<noteq> 0
            \<and> \<not> disconnected t \<and> refcount t < INT_MAX \<longrightarrow>
            dbus_transport_do_iteration run P flags timeout_milliseconds w =
              and_then
                (run (cb flags timeout_milliseconds)
                   (dispatch_point (Vtable_Do_Iteration flags timeout_milliseconds) t w))
                (DBUS_TRANSPORT_RELEASE_REF run P))"
proof -
  have "dbus_transport_do_iteration run P flags timeout_milliseconds w =
          and_then
            (run (cb flags timeout_milliseconds)
               (dispatch_point (Vtable_Do_Iteration flags timeout_milliseconds) t w))
            (DBUS_TRANSPORT_RELEASE_REF run P)"
    if dir: "flags AND (DBUS_ITERATION_DO_WRITING P OR DBUS_ITERATION_DO_READING P) \<noteq> 0"
      and conn: "\<not> disconnected t" and rc: "refcount t < INT_MAX"
  proof -
    obtain w1 where "DBUS_TRANSPORT_HOLD_REF w = Inr w1"
      and "record_call (Vtable_Do_Iteration flags timeout_milliseconds) w1 =
             dispatch_point (Vtable_Do_Iteration flags timeout_milliseconds) t w"
      using hold_ref_dispatch[of w t "Vtable_Do_Iteration flags timeout_milliseconds"] assms rc
      by auto
    then show ?thesis
      using assms dir conn by (simp add: dbus_transport_do_iteration_def)
  qed
  then show ?thesis
    using assms by (auto simp: dbus_transport_do_iteration_def record_call_def)
qed

theorem C9_no_direction_is_noop_witness:
  "dbus_transport_do_iteration (exec 1 unix_program) unix_program 4 0
      (holding (fresh\<lparr>disconnected := True\<rparr>)) = Inr (holding (fresh\<lparr>disconnected := True\<rparr>))
   \<and> calls (trace_of (dbus_transport_do_iteration (exec 1 unix_program) unix_program 5 0
      (holding (fresh\<lparr>disconnected := True\<rparr>)))) =
       [Connection_Transport_Error None DBUS_RESULT_DISCONNECTED]
   \<and> calls (trace_of (dbus_transport_do_iteration (exec 1 unix_program) unix_program 5 0
      (holding fresh))) = [Transport_Ref, Vtable_Do_Iteration 5 0, Transport_Unref]"
  using C9_no_direction_is_noop
    [where w = "holding (fresh\<lparr>disconnected := True\<rparr>)"
       and t = "fresh\<lparr>disconnected := True\<rparr>" and P = unix_program
       and cb = "\<lambda>flags timeout_milliseconds. []" and flags = 4
       and run = "exec 1 unix_program" and timeout_milliseconds = 0]
    C9_no_direction_is_noop
    [where w = "holding (fresh\<lparr>disconnected := True\<rparr>)"
       and t = "fresh\<lparr>disconnected := True\<rparr>" and P = unix_program
       and cb = "\<lambda>flags timeout_milliseconds. []" and flags = 5
       and run = "exec 1 unix_program" and timeout_milliseconds = 0]
    C9_no_direction_is_noop
    [where w = "holding fresh" and t = fresh and P = unix_program
       and cb = "\<lambda>flags timeout_milliseconds. []" and flags = 5
       and run = "exec 1 unix_program" and timeout_milliseconds = 0]
  by (simp add: fixture_defs calls_def dispatch_point_def acquired_def INT_MAX_def
      DBUS_TRANSPORT_RELEASE_REF_def dbus_transport_unref_def Let_def fault_def)

section \<open>Disconnection\<close>

lemma exec_nil [simp]: "exec (Suc n) P [] w = Inr w"
  by simp

lemma dispatch_point_simps [simp]:
  "transport (dispatch_point c t w) = Some (t\<lparr>refcount := refcount t + 1\<rparr>)"
  "outside (dispatch_point c t w) = outside w"
  "trace (dispatch_point c t w) =
     trace w @ acquired t @ [(c, Some (t\<lparr>refcount := refcount t + 1\<rparr>))]"
  by (simp_all add: dispatch_point_def)

text \<open>
  Claim C6.  The first \<^verbatim>\<open>_dbus_transport_disconnect\<close> on a connected transport makes its
  calls in this order: the acquiring macro (\<^verbatim>\<open>_dbus_transport_ref\<close>, then
  \<^verbatim>\<open>dbus_connection_ref\<close> if a connection is attached), the subclass \<open>disconnect\<close>,
  which starts on a struct whose \<open>disconnected\<close> flag is still false, whatever the
  subclass operation itself records (\<open>es\<close>), and then the releasing macro, every call of
  which already sees \<open>disconnected\<close> set.  The subclass operation is taken to return
  with the transport alive and a reference besides the guard's left, so that the release
  does not finalize.
\<close>

theorem C6_disconnect_order:
  assumes "transport w = Some t" and "\<not> disconnected t"
    and "disconnect (vtables P (vtable t)) = Some cb" and "refcount t < INT_MAX"
    and "run cb (dispatch_point Vtable_Disconnect t w) = Inr w2"
    and "trace w2 = trace (dispatch_point Vtable_Disconnect t w) @ es"
    and "transport w2 = Some t2" and "1 < refcount t2"
  shows "\<exists>w'. dbus_transport_disconnect run P w = Inr w'
           \<and> trace w' = trace w @ acquired t
                @ [(Vtable_Disconnect, Some (t\<lparr>refcount := refcount t + 1\<rparr>))]
                @ es @ released (t2\<lparr>disconnected := True\<rparr>)
           \<and> transport (dispatch_point Vtable_Disconnect t w) =
                Some (t\<lparr>refcount := refcount t + 1\<rparr>)
           \<and> \<not> disconnected (t\<lparr>refcount := refcount t + 1\<rparr>)
           \<and> (\<forall>ev \<in> set (released (t2\<lparr>disconnected := True\<rparr>)).
                 \<exists>s. snd ev = Some s \<and> disconnected s)
           \<and> transport w' = Some (t2\<lparr>disconnected := True, refcount := refcount t2 - 1\<rparr>)"
  using assms
  by (auto simp: disconnect_first released_def split: option.split)

theorem C6_disconnect_order_witness:
  "\<exists>w'. dbus_transport_disconnect (exec 1 unix_program) unix_program
            (holding (fresh\<lparr>connection := Some 7\<rparr>)) = Inr w'
      \<and> trace w' =
          [(Transport_Ref, Some (fresh\<lparr>connection := Some 7\<rparr>)),
           (Connection_Ref 7, Some (fresh\<lparr>connection := Some 7, refcount := 2\<rparr>)),
           (Vtable_Disconnect, Some (fresh\<lparr>connection := Some 7, refcount := 2\<rparr>)),
           (Connection_Unref 7,
              Some (fresh\<lparr>connection := Some 7, refcount := 2, disconnected := True\<rparr>)),
           (Transport_Unref,
              Some (fresh\<lparr>connection := Some 7, refcount := 2, disconnected := True\<rparr>))]
      \<and> transport w' = Some (fresh\<lparr>connection := Some 7, disconnected := True\<rparr>)"
  using C6_disconnect_order
    [where w = "holding (fresh\<lparr>connection := Some 7\<rparr>)"
       and t = "fresh\<lparr>connection := Some 7\<rparr>" and P = unix_program and cb = "[]"
       and run = "exec 1 unix_program"
       and ?w2.0 = "dispatch_point Vtable_Disconnect (fresh\<lparr>connection := Some 7\<rparr>)
                   (holding (fresh\<lparr>connection := Some 7\<rparr>))"
       and es = "[]" and ?t2.0 = "fresh\<lparr>connection := Some 7, refcount := 2\<rparr>"]
  by (simp add: fixture_defs INT_MAX_def acquired_def released_def)

text \<open>When the subclass \<open>disconnect\<close> returns with the transport alive, a reference
  besides the guard's left and a vtable that still has a \<open>disconnect\<close> entry, any
  number of calls of \<^verbatim>\<open>_dbus_transport_disconnect\<close> in a row leaves the world that the
  first call leaves: what the subclass operation returned, with the flag set and the
  guard released.\<close>

lemma disconnect_repeated:
  assumes "transport w = Some t" and "\<not> disconnected t"
    and "disconnect (vtables P (vtable t)) = Some cb" and "refcount t < INT_MAX"
    and "run cb (dispatch_point Vtable_Disconnect t w) = Inr w2"
    and "transport w2 = Some t2" and "1 < refcount t2"
    and "disconnect (vtables P (vtable t2)) \<noteq> None"
  shows "run_stmts (step run P) (replicate (Suc n) Call_Disconnect) w =
           Inr (w2\<lparr>transport := Some (t2\<lparr>disconnected := True, refcount := refcount t2 - 1\<rparr>),
                   trace := trace w2 @ released (t2\<lparr>disconnected := True\<rparr>)\<rparr>)"
proof -
  let ?w' = "w2\<lparr>transport := Some (t2\<lparr>disconnected := True, refcount := refcount t2 - 1\<rparr>),
                 trace := trace w2 @ released (t2\<lparr>disconnected := True\<rparr>)\<rparr>"
  have first: "dbus_transport_disconnect run P w = Inr ?w'"
    using assms by (simp add: disconnect_first)
  have rest: "run_stmts (step run P) (replicate n Call_Disconnect) ?w' = Inr ?w'"
    using assms
    by (intro disconnect_repeat
          [where t = "t2\<lparr>disconnected := True, refcount := refcount t2 - 1\<rparr>"]) auto
  show ?thesis
    by (simp add: step_def first rest)
qed

text \<open>
  Claim C2, where the code misses it.  \<^verbatim>\<open>_dbus_transport_disconnect\<close> sets
  \<open>disconnected\<close> only after the subclass operation has returned, so a call that comes
  in while the subclass operation runs finds the flag unset and goes through the vtable
  again.  On a transport right after construction whose subclass \<open>disconnect\<close> causes
  one such call, a single call of \<^verbatim>\<open>_dbus_transport_disconnect\<close> (\<open>N = 1\<close>) enters the
  subclass \<open>disconnect\<close> twice, the second time on a struct whose flag is still false;
  the call returns, with the transport alive and disconnected.
\<close>

theorem C2_disconnect_reentered:
  "\<exists>w'. dbus_transport_disconnect (exec (Suc (Suc (Suc (Suc n)))) reentering_program)
            reentering_program open_transport = Inr w'
      \<and> trace w' =
          [(Transport_Ref, Some fresh),
           (Vtable_Disconnect, Some (fresh\<lparr>refcount := 2\<rparr>)),
           (Transport_Ref, Some (fresh\<lparr>refcount := 2\<rparr>)),
           (Vtable_Disconnect, Some (fresh\<lparr>refcount := 3\<rparr>)),
           (Transport_Unref, Some (fresh\<lparr>refcount := 3, disconnected := True\<rparr>)),
           (Transport_Unref, Some (fresh\<lparr>refcount := 2, disconnected := True\<rparr>))]
      \<and> count_list (calls (trace w')) Vtable_Disconnect = 2
      \<and> transport w' = Some (fresh\<lparr>disconnected := True\<rparr>)
      \<and> dbus_transport_get_is_connected w' = Inr False"
  by (simp add: api_defs reentering_program_def open_transport_def fresh_def calls_def Let_def
        dbus_transport_get_is_connected_def)

section \<open>Queue-state notification\<close>

text \<open>
  Claim C7.  On a connected transport \<^verbatim>\<open>_dbus_transport_messages_pending\<close> first stores
  \<open>queue_length > 0\<close> in \<open>messages_need_sending\<close> and then enters the subclass
  \<open>messages_pending\<close>: the call is the subclass operation, run from the world \<open>wd\<close>,
  followed by the releasing macro, and in \<open>wd\<close> the flag of the struct has the value
  that belongs to the queue length of this very call, as the snapshot taken at the
  dispatch shows.
\<close>

theorem C7_flag_before_dispatch:
  assumes "transport w = Some t" and "\<not> disconnected t"
    and "messages_pending (vtables P (vtable t)) = Some cb" and "refcount t < INT_MAX"
  shows "\<exists>wd td.
           wd = dispatch_point (Vtable_Messages_Pending queue_length)
                  (t\<lparr>messages_need_sending := (0 < queue_length)\<rparr>) w
         \<and> dbus_transport_messages_pending run P queue_length w =
             and_then (run (cb queue_length) wd) (DBUS_TRANSPORT_RELEASE_REF run P)
         \<and> transport wd = Some td
         \<and> messages_need_sending td = (0 < queue_length)
         \<and> last (trace wd) = (Vtable_Messages_Pending queue_length, Some td)"
proof -
  let ?t = "t\<lparr>messages_need_sending := (0 < queue_length)\<rparr>"
  obtain w1 where "DBUS_TRANSPORT_HOLD_REF (store ?t w) = Inr w1"
    and "record_call (Vtable_Messages_Pending queue_length) w1 =
           dispatch_point (Vtable_Messages_Pending queue_length) ?t (store ?t w)"
    using hold_ref_dispatch[of "store ?t w" ?t "Vtable_Messages_Pending queue_length"] assms
    by auto
  moreover have "dispatch_point (Vtable_Messages_Pending queue_length) ?t (store ?t w) =
      dispatch_point (Vtable_Messages_Pending queue_length) ?t w"
    by (simp add: dispatch_point_def store_def)
  ultimately have "dbus_transport_messages_pending run P queue_length w =
      and_then (run (cb queue_length) (dispatch_point (Vtable_Messages_Pending queue_length) ?t w))
        (DBUS_TRANSPORT_RELEASE_REF run P)"
    using assms by (simp add: dbus_transport_messages_pending_def)
  then show ?thesis
    by simp
qed

theorem C7_flag_before_dispatch_witness:
  "\<exists>wd td.
     dbus_transport_messages_pending (exec 1 unix_program) unix_program 5
         (holding (fresh\<lparr>connection := Some 7\<rparr>)) =
       and_then (exec 1 unix_program [] wd)
         (DBUS_TRANSPORT_RELEASE_REF (exec 1 unix_program) unix_program)
     \<and> transport wd = Some td \<and> messages_need_sending td
     \<and> last (trace wd) = (Vtable_Messages_Pending 5, Some td)"
proof -
  let ?t = "fresh\<lparr>connection := Some 7\<rparr>"
  have live: "transport (holding ?t) = Some ?t"
    by (simp add: holding_def)
  have connected: "\<not> disconnected ?t"
    by (simp add: fresh_def)
  have entry: "messages_pending (vtables unix_program (vtable ?t)) = Some (\<lambda>queue_length. [])"
    by (simp add: fixture_defs)
  have room: "refcount ?t < INT_MAX"
    by (simp add: fresh_def INT_MAX_def)
  from C7_flag_before_dispatch [OF live connected entry room, of 5 "exec 1 unix_program"]
  show ?thesis by auto
qed

text \<open>The scenario of the specification: \<open>messages_pending(5)\<close> and then
  \<open>messages_pending(0)\<close>; the subclass operation is entered with the flag true and
  then with the flag false.\<close>

lemma messages_pending_5_then_0:
  "map (\<lambda>ev. (fst ev, map_option messages_need_sending (snd ev)))
     (filter (\<lambda>ev. fst ev = Vtable_Messages_Pending 5 \<or> fst ev = Vtable_Messages_Pending 0)
        (trace_of (exec 2 unix_program [Call_Messages_Pending 5, Call_Messages_Pending 0]
           (holding fresh)))) =
     [(Vtable_Messages_Pending 5, Some True), (Vtable_Messages_Pending 0, Some False)]"
  by (simp add: api_defs fixture_defs eval_nat_numeral Let_def)

section \<open>Construction\<close>

text \<open>
  Claim C8.  \<^verbatim>\<open>_dbus_transport_init_base\<close> asks for a new message loader and then for a
  new auth conversation, the server variant when the role flag is set and the client
  variant otherwise.  If the loader cannot be had it returns false with the struct
  untouched; if the auth conversation cannot be had it gives the loader back and returns
  false with the struct untouched; otherwise it returns true and has set \<open>refcount\<close> to
  1, the vtable, loader and auth to what it was given and got, and \<open>authenticated\<close>,
  \<open>messages_need_sending\<close> and \<open>disconnected\<close> to false.
\<close>

theorem C8_init_base:
  assumes "transport w = Some t"
  shows "(\<forall>e1. message_loader_new P (outside w) = (None, e1) \<longrightarrow>
            dbus_transport_init_base P vt server w =
              Inr (False, w\<lparr>outside := e1, trace := trace w @ [(Message_Loader_New, Some t)]\<rparr>))
       \<and> (\<forall>ld e1 e2. message_loader_new P (outside w) = (Some ld, e1)
              \<and> (if server then auth_server_new P e1 else auth_client_new P e1) = (None, e2) \<longrightarrow>
            dbus_transport_init_base P vt server w =
              Inr (False, w\<lparr>outside := e2, trace := trace w @
                     [(Message_Loader_New, Some t),
                      (if server then Auth_Server_New else Auth_Client_New, Some t),
                      (Message_Loader_Unref ld, Some t)]\<rparr>))
       \<and> (\<forall>ld e1 au e2. message_loader_new P (outside w) = (Some ld, e1)
              \<and> (if server then auth_server_new P e1 else auth_client_new P e1) = (Some au, e2) \<longrightarrow>
            dbus_transport_init_base P vt server w =
              Inr (True, w\<lparr>transport := Some (t\<lparr>refcount := 1, vtable := vt, loader := ld,
                                auth := au, authenticated := False,
                                messages_need_sending := False, disconnected := False\<rparr>),
                     outside := e2, trace := trace w @
                     [(Message_Loader_New, Some t),
                      (if server then Auth_Server_New else Auth_Client_New, Some t)]\<rparr>))"
  using assms
  by (simp add: dbus_transport_init_base_def record_call_def store_def)

theorem C8_init_base_witness:
  "dbus_transport_init_base no_loader_program 0 False blank =
     Inr (False, blank\<lparr>trace := [(Message_Loader_New, Some zeroed)]\<rparr>)
   \<and> dbus_transport_init_base no_auth_program 0 True blank =
     Inr (False, blank\<lparr>trace := [(Message_Loader_New, Some zeroed),
                                   (Auth_Server_New, Some zeroed),
                                   (Message_Loader_Unref 1, Some zeroed)]\<rparr>)
   \<and> dbus_transport_init_base unix_program 0 False blank =
     Inr (True, \<lparr>transport = Some fresh, outside = 0,
                 trace = [(Message_Loader_New, Some zeroed), (Auth_Client_New, Some zeroed)]\<rparr>)
   \<and> dbus_transport_init_base unix_program 0 True blank =
     Inr (True, \<lparr>transport = Some (fresh\<lparr>auth := 2\<rparr>), outside = 0,
                 trace = [(Message_Loader_New, Some zeroed), (Auth_Server_New, Some zeroed)]\<rparr>)"
  using C8_init_base [where w = blank and t = zeroed and P = no_loader_program and vt = 0
                        and server = False]
    C8_init_base [where w = blank and t = zeroed and P = no_auth_program and vt = 0
                        and server = True]
    C8_init_base [where w = blank and t = zeroed and P = unix_program and vt = 0
                        and server = False]
    C8_init_base [where w = blank and t = zeroed and P = unix_program and vt = 0
                        and server = True]
  by (simp add: fixture_defs)

lemma constructed_eq:
  "constructed =
     \<lparr>transport = Some fresh, outside = 0,
      trace = [(Message_Loader_New, Some zeroed), (Auth_Client_New, Some zeroed)]\<rparr>"
  by (simp add: constructed_def dbus_transport_init_base_def fixture_defs record_call_def
      store_def)

section \<open>The reference guard around a dispatch\<close>

text \<open>No function of the file takes anything back from the trace, if the subclass code
  it runs does not; by induction on the fuel, no run does.\<close>

lemma dispatch_point_store [simp]: "dispatch_point c t (store t' w) = dispatch_point c t w"
  by (simp add: dispatch_point_def store_def)

lemma grows_simps [simp]:
  "grows tr (Inr w) = (\<exists>es. trace w = tr @ es)"
  "grows tr (Inl (e, tr')) = (\<exists>es. tr' = tr @ es)"
  "grows tr (fault e w) = (\<exists>es. trace w = tr @ es)"
  by (simp_all add: grows_def fault_def)































text \<open>The guard at work: a \<open>handle_watch\<close> that disconnects the transport and drops
  the last outside reference returns into the operation with the transport alive; the
  releasing macro then takes the count to zero and the finalizer is entered once, the
  transport being disconnected by then.\<close>

lemma reentrant_disconnect_in_handle_watch:
  "calls (trace_of (exec (Suc (Suc (Suc (Suc n)))) reentrant_program [Call_Handle_Watch 5 1]
      (holding (fresh\<lparr>connection := Some 7\<rparr>)))) =
     [Watch_Get_Fd 5, Watch_Sanitize_Condition 5,
      Transport_Ref, Connection_Ref 7, Watch_Ref 5, Vtable_Handle_Watch 5 1,
      Transport_Ref, Connection_Ref 7, Vtable_Disconnect, Connection_Unref 7, Transport_Unref,
      Transport_Unref,
      Watch_Unref 5, Connection_Unref 7, Transport_Unref,
      Vtable_Finalize, Message_Loader_Unref 1, Auth_Unref 3, Free]"
  by (simp add: api_defs fixture_defs calls_def Let_def)

section \<open>The authentication cache\<close>

text \<open>Every function of the file keeps a settled cache settled and makes no consultation
  while it is settled, provided the subclass code it runs does so; by induction on the
  fuel, so does every run of polite code.\<close>

lemma consultations_simps [simp]:
  "consultations [] = 0"
  "consultations ((c, x) # es) = (if is_consultation c then 1 else 0) + consultations es"
  "consultations (es @ es') = consultations es + consultations es'"
  by (simp_all add: consultations_def)

lemma kept_simps [simp]:
  "result_kept k (Inl f)"
  "result_kept k (Inr w) = cache_kept k w"
  "result_kept k (fault e w)"
  by (simp_all add: result_kept_def fault_def)

lemma kept_record_call [simp]:
  "\<not> is_consultation c \<Longrightarrow> cache_kept k (record_call c w) = cache_kept k w"
  by (simp add: cache_kept_def settled_def consultations_def)

lemma kept_store [simp]:
  "cache_kept k (store t w) = (authenticated t \<and> consultations (trace w) = k)"
  by (simp add: cache_kept_def settled_def)

lemma kept_alive: "cache_kept k w \<Longrightarrow> transport w = Some t \<Longrightarrow> authenticated t"
  by (simp add: cache_kept_def settled_def)

lemma kept_count: "cache_kept k w \<Longrightarrow> consultations (trace w) = k"
  by (simp add: cache_kept_def)

lemma kept_and_then:
  "result_kept k r \<Longrightarrow> (\<And>w. cache_kept k w \<Longrightarrow> result_kept k (f w)) \<Longrightarrow>
     result_kept k (and_then r f)"
  by (cases r) (simp_all add: and_then_def)

lemma kept_deref:
  "(\<And>t. transport w = Some t \<Longrightarrow> result_kept k (f t)) \<Longrightarrow> result_kept k (deref w f)"
  by (cases "transport w") simp_all

lemma run_keeps_run:
  "run_keeps run k \<Longrightarrow> list_all polite c \<Longrightarrow> cache_kept k w \<Longrightarrow> result_kept k (run c w)"
  by (simp add: run_keeps_def)

lemma polite_entries:
  assumes "polite_program P"
  shows "finalize (vtables P p) = Some c \<Longrightarrow> list_all polite c"
    and "handle_watch (vtables P p) = Some ch \<Longrightarrow> list_all polite (ch watch condition)"
    and "disconnect (vtables P p) = Some c \<Longrightarrow> list_all polite c"
    and "connection_set (vtables P p) = Some c \<Longrightarrow> list_all polite c"
    and "messages_pending (vtables P p) = Some cm \<Longrightarrow> list_all polite (cm queue_length)"
    and "do_iteration (vtables P p) = Some ci \<Longrightarrow> list_all polite (ci flags ms)"
  using assms by (auto simp: polite_program_def polite_vtable_def)

lemma kept_ref: "cache_kept k w \<Longrightarrow> result_kept k (dbus_transport_ref w)"
  unfolding dbus_transport_ref_def Let_def
  by (rule kept_deref) (auto dest: kept_alive kept_count)

lemma kept_unref:
  assumes "run_keeps run k" and "polite_program P" and "cache_kept k w"
  shows "result_kept k (dbus_transport_unref run P w)"
  unfolding dbus_transport_unref_def Let_def
proof (rule kept_deref)
  fix t assume "transport (record_call Transport_Unref w) = Some t"
  then have a: "authenticated t" and c: "consultations (trace w) = k"
    using assms(3) by (auto dest: kept_alive kept_count)
  have "result_kept k (run fin (record_call Vtable_Finalize (store t' (record_call Transport_Unref w))))"
    if "finalize (vtables P (vtable t)) = Some fin" and "authenticated t'" for fin t'
    using that assms(1,2) c
    by (intro run_keeps_run polite_entries(1)[of P "vtable t"]) simp_all
  then show "result_kept k (if \<not> 0 < refcount t then fault Assert_Failed (record_call Transport_Unref w)
       else if refcount (t\<lparr>refcount := refcount t - 1\<rparr>) = 0
            then case finalize (vtables P (vtable (t\<lparr>refcount := refcount t - 1\<rparr>))) of
                   None \<Rightarrow> fault Assert_Failed
                     (store (t\<lparr>refcount := refcount t - 1\<rparr>) (record_call Transport_Unref w))
                 | Some fin \<Rightarrow> run fin (record_call Vtable_Finalize
                     (store (t\<lparr>refcount := refcount t - 1\<rparr>) (record_call Transport_Unref w)))
            else Inr (store (t\<lparr>refcount := refcount t - 1\<rparr>) (record_call Transport_Unref w)))"
    using a c by (simp split: option.split)
qed

lemma kept_hold: "cache_kept k w \<Longrightarrow> result_kept k (DBUS_TRANSPORT_HOLD_REF w)"
  unfolding DBUS_TRANSPORT_HOLD_REF_def
  by (intro kept_and_then kept_ref kept_deref) (auto split: option.split)

lemma kept_release:
  assumes "run_keeps run k" and "polite_program P" and "cache_kept k w"
  shows "result_kept k (DBUS_TRANSPORT_RELEASE_REF run P w)"
  unfolding DBUS_TRANSPORT_RELEASE_REF_def
  using assms by (intro kept_deref kept_unref) (auto split: option.split)

lemma kept_guarded:
  assumes "run_keeps run k" and "polite_program P" and "cache_kept k w" and "list_all polite cb"
    and "\<not> is_consultation c"
  shows "result_kept k (and_then (DBUS_TRANSPORT_HOLD_REF w) (\<lambda>w1.
           and_then (run cb (record_call c w1)) (DBUS_TRANSPORT_RELEASE_REF run P)))"
  using assms by (intro kept_and_then kept_hold kept_release run_keeps_run) simp_all

lemma kept_disconnect:
  assumes "run_keeps run k" and "polite_program P" and "cache_kept k w"
  shows "result_kept k (dbus_transport_disconnect run P w)"
  unfolding dbus_transport_disconnect_def
proof (rule kept_deref)
  fix t assume t: "transport w = Some t"
  show "result_kept k (case disconnect (vtables P (vtable t)) of
          None \<Rightarrow> fault Assert_Failed w
        | Some cb \<Rightarrow>
            if disconnected t then Inr w
            else and_then (DBUS_TRANSPORT_HOLD_REF w) (\<lambda>w1.
                 and_then (run cb (record_call Vtable_Disconnect w1)) (\<lambda>w2.
                 deref w2 (\<lambda>t2. DBUS_TRANSPORT_RELEASE_REF run P
                    (store (t2\<lparr>disconnected := True\<rparr>) w2)))))"
  proof (cases "disconnect (vtables P (vtable t))")
    case None
    then show ?thesis by simp
  next
    case (Some cb)
    have cb: "list_all polite cb"
      using assms(2) Some by (rule polite_entries(3))
    have "result_kept k (and_then (DBUS_TRANSPORT_HOLD_REF w) (\<lambda>w1.
                 and_then (run cb (record_call Vtable_Disconnect w1)) (\<lambda>w2.
                 deref w2 (\<lambda>t2. DBUS_TRANSPORT_RELEASE_REF run P
                    (store (t2\<lparr>disconnected := True\<rparr>) w2)))))"
      using assms cb
      by (intro kept_and_then kept_hold run_keeps_run kept_deref kept_release)
         (auto dest: kept_alive kept_count)
    then show ?thesis using Some assms(3) by simp
  qed
qed

lemma kept_finalize_base:
  assumes "run_keeps run k" and "polite_program P" and "cache_kept k w"
  shows "result_kept k (dbus_transport_finalize_base run P w)"
  unfolding dbus_transport_finalize_base_def Let_def
  using assms
  by (intro kept_deref kept_and_then) (auto intro: kept_disconnect)

lemma kept_handle_watch:
  assumes "run_keeps run k" and "polite_program P" and "cache_kept k w"
  shows "result_kept k (dbus_transport_handle_watch run P watch condition w)"
  unfolding dbus_transport_handle_watch_def Let_def
proof (rule kept_deref)
  fix t assume t: "transport w = Some t"
  have "result_kept k (and_then (DBUS_TRANSPORT_HOLD_REF
                 (record_call (Watch_Sanitize_Condition watch) (record_call (Watch_Get_Fd watch) w)))
          (\<lambda>w1. and_then (run (cb watch c)
                    (record_call (Vtable_Handle_Watch watch c) (record_call (Watch_Ref watch) w1)))
             (\<lambda>w2. DBUS_TRANSPORT_RELEASE_REF run P (record_call (Watch_Unref watch) w2))))"
    if "handle_watch (vtables P (vtable t)) = Some cb" for cb c
    using assms polite_entries(2)[OF assms(2) that]
    by (intro kept_and_then kept_hold run_keeps_run kept_release) simp_all
  then show "result_kept k (case handle_watch (vtables P (vtable t)) of
      None \<Rightarrow> fault Assert_Failed w
    | Some cb \<Rightarrow>
        if disconnected t
        then Inr (record_call (Connection_Transport_Error (connection t) DBUS_RESULT_DISCONNECTED) w)
        else if watch_get_fd P watch (outside (record_call (Watch_Get_Fd watch) w)) < 0
             then Inr (record_call Warn (record_call (Watch_Get_Fd watch) w))
             else and_then
                    (DBUS_TRANSPORT_HOLD_REF
                      (record_call (Watch_Sanitize_Condition watch)
                        (record_call (Watch_Get_Fd watch) w)))
                    (\<lambda>w1. and_then
                            (run (cb watch
                                   (watch_sanitize_condition P watch condition
                                     (outside
                                       (record_call (Watch_Sanitize_Condition watch)
                                         (record_call (Watch_Get_Fd watch) w)))))
                              (record_call
                                (Vtable_Handle_Watch watch
                                  (watch_sanitize_condition P watch condition
                                    (outside
                                      (record_call (Watch_Sanitize_Condition watch)
                                        (record_call (Watch_Get_Fd watch) w)))))
                                (record_call (Watch_Ref watch) w1)))
                            (\<lambda>w2. DBUS_TRANSPORT_RELEASE_REF run P
                                   (record_call (Watch_Unref watch) w2))))"
    using assms(3) by (simp split: option.split)
qed

lemma kept_set_connection:
  assumes "run_keeps run k" and "polite_program P" and "cache_kept k w"
  shows "result_kept k (dbus_transport_set_connection run P conn w)"
  unfolding dbus_transport_set_connection_def
  using assms
  by (intro kept_deref)
     (auto split: option.split intro!: kept_guarded polite_entries(4)
        dest: kept_alive kept_count)

lemma kept_messages_pending:
  assumes "run_keeps run k" and "polite_program P" and "cache_kept k w"
  shows "result_kept k (dbus_transport_messages_pending run P queue_length w)"
  unfolding dbus_transport_messages_pending_def
  using assms
  by (intro kept_deref)
     (auto split: option.split intro!: kept_guarded polite_entries(5)
        dest: kept_alive kept_count)

lemma kept_do_iteration:
  assumes "run_keeps run k" and "polite_program P" and "cache_kept k w"
  shows "result_kept k (dbus_transport_do_iteration run P flags ms w)"
  unfolding dbus_transport_do_iteration_def
  using assms
  by (intro kept_deref)
     (auto split: option.split intro!: kept_guarded polite_entries(6)
        dest: kept_alive kept_count)

lemma get_is_authenticated_settled:
  assumes "cache_kept k w"
  shows "dbus_transport_get_is_authenticated P w = Inl (Use_After_Free, trace w)
       \<or> dbus_transport_get_is_authenticated P w = Inr (True, w)"
  using assms
  by (auto simp: dbus_transport_get_is_authenticated_def split: option.split
      dest: kept_alive)

lemma kept_step:
  assumes "run_keeps run k" and "polite_program P" and "polite s" and "cache_kept k w"
  shows "result_kept k (step run P s w)"
proof (cases s)
  case (Sub f)
  have "result_kept k (case f t (outside w) of (t', e') \<Rightarrow> Inr (store t' (w\<lparr>outside := e'\<rparr>)))"
    if t: "transport w = Some t" for t
  proof (cases "f t (outside w)")
    case (Pair t' e')
    have "authenticated t" using assms(4) t by (rule kept_alive)
    then have "authenticated (fst (f t (outside w)))"
      using assms(3) Sub by simp
    then show ?thesis
      using Pair assms(4) by (simp add: kept_count)
  qed
  then show ?thesis
    using Sub by (simp add: step_def kept_deref)
next
  case Call_Get_Is_Authenticated
  then show ?thesis
    using get_is_authenticated_settled[OF assms(4), of P] assms(4)
    by (auto simp: step_def)
next
  case Call_Free
  then show ?thesis
    using assms(4)
    by (auto simp: step_def cache_kept_def settled_def intro!: kept_deref)
next
  case (Cond b ss ss')
  then show ?thesis
    using assms(1,3,4)
    by (auto simp: step_def intro!: kept_deref run_keeps_run)
qed (use assms in \<open>simp_all add: step_def kept_ref kept_unref kept_disconnect kept_finalize_base
       kept_handle_watch kept_set_connection kept_messages_pending kept_do_iteration\<close>)

lemma kept_run_stmts:
  assumes "\<And>s w. polite s \<Longrightarrow> cache_kept k w \<Longrightarrow> result_kept k (st s w)"
  shows "list_all polite ss \<Longrightarrow> cache_kept k w \<Longrightarrow> result_kept k (run_stmts st ss w)"
proof (induction ss arbitrary: w)
  case Nil
  then show ?case by simp
next
  case (Cons s ss)
  then show ?case
    by (auto intro!: kept_and_then assms)
qed

lemma exec_keeps:
  fixes P :: "'e program"
  assumes "polite_program P"
  shows "run_keeps (exec n P) k"
proof (induction n)
  case 0
  show ?case by (simp add: run_keeps_def)
next
  case (Suc n)
  show ?case
    unfolding run_keeps_def
  proof (intro allI impI)
    fix c :: "'e stmt list" and w :: "'e world"
    assume "list_all polite c \<and> cache_kept k w"
    then show "result_kept k (exec (Suc n) P c w)"
      using Suc assms by (auto intro!: kept_run_stmts kept_step)
  qed
qed


lemma returned_true_kept:
  assumes "dbus_transport_get_is_authenticated P w = Inr (True, w1)"
  shows "cache_kept (consultations (trace w1)) w1"
  using assms
  by (auto simp: dbus_transport_get_is_authenticated_def cache_kept_def settled_def Let_def
      split: option.splits if_splits prod.splits)

lemma kept_answers_true:
  assumes "cache_kept k w"
  shows "consultations (trace w) = k
       \<and> (transport w = None \<or> dbus_transport_get_is_authenticated P w = Inr (True, w))"
  using assms
  by (auto simp: dbus_transport_get_is_authenticated_def cache_kept_def settled_def
      split: option.splits)

text \<open>
  Claim C5.  \<^verbatim>\<open>_dbus_transport_get_is_authenticated\<close> on a transport whose cached flag is
  set returns true and leaves the world as it is (no consultation).  While the flag is
  not set, a call consults the auth conversation exactly once, stores in the flag
  whether the reported state is \<^verbatim>\<open>DBUS_AUTH_STATE_AUTHENTICATED\<close>, and returns that.  Once
  a call has returned true, then after any further run of calls into the file and of
  polite subclass code (any statements, any fuel), and in particular after
  \<^verbatim>\<open>_dbus_transport_disconnect\<close>, no consultation has been added and, unless the transport
  has been freed, the next call returns true again and changes nothing.
\<close>

theorem C5_is_authenticated_monotonic:
  fixes P :: "'e program"
  assumes "transport w = Some t"
  shows "(authenticated t \<longrightarrow> dbus_transport_get_is_authenticated P w = Inr (True, w))
       \<and> (\<not> authenticated t \<longrightarrow>
            (\<exists>st e'. auth_do_work P (auth t) (outside w) = (st, e')
               \<and> dbus_transport_get_is_authenticated P w =
                   Inr (st = DBUS_AUTH_STATE_AUTHENTICATED,
                        w\<lparr>transport :=
                             Some (t\<lparr>authenticated := (st = DBUS_AUTH_STATE_AUTHENTICATED)\<rparr>),
                           outside := e',
                           trace := trace w @ [(Auth_Do_Work (auth t), Some t)]\<rparr>)))
       \<and> (\<forall>w1 n ss w2.
            dbus_transport_get_is_authenticated P w = Inr (True, w1)
            \<and> polite_program P \<and> list_all polite ss \<and> exec n P ss w1 = Inr w2 \<longrightarrow>
            consultations (trace w2) = consultations (trace w1)
            \<and> (transport w2 = None
                 \<or> dbus_transport_get_is_authenticated P w2 = Inr (True, w2)))
       \<and> (\<forall>w1 n w2.
            dbus_transport_get_is_authenticated P w = Inr (True, w1)
            \<and> polite_program P \<and> dbus_transport_disconnect (exec n P) P w1 = Inr w2 \<longrightarrow>
            consultations (trace w2) = consultations (trace w1)
            \<and> (transport w2 = None
                 \<or> dbus_transport_get_is_authenticated P w2 = Inr (True, w2)))"
proof (intro conjI)
  show "authenticated t \<longrightarrow> dbus_transport_get_is_authenticated P w = Inr (True, w)"
    using assms by (simp add: dbus_transport_get_is_authenticated_def)
next
  show "\<not> authenticated t \<longrightarrow>
            (\<exists>st e'. auth_do_work P (auth t) (outside w) = (st, e')
               \<and> dbus_transport_get_is_authenticated P w =
                   Inr (st = DBUS_AUTH_STATE_AUTHENTICATED,
                        w\<lparr>transport :=
                             Some (t\<lparr>authenticated := (st = DBUS_AUTH_STATE_AUTHENTICATED)\<rparr>),
                           outside := e',
                           trace := trace w @ [(Auth_Do_Work (auth t), Some t)]\<rparr>))"
    using assms
    by (cases "auth_do_work P (auth t) (outside w)")
       (simp add: dbus_transport_get_is_authenticated_def record_call_def store_def Let_def)
next
  show "\<forall>w1 n ss w2.
            dbus_transport_get_is_authenticated P w = Inr (True, w1)
            \<and> polite_program P \<and> list_all polite ss \<and> exec n P ss w1 = Inr w2 \<longrightarrow>
            consultations (trace w2) = consultations (trace w1)
            \<and> (transport w2 = None
                 \<or> dbus_transport_get_is_authenticated P w2 = Inr (True, w2))"
  proof (intro allI impI)
    fix w1 :: "'e world" and n ss and w2 :: "'e world"
    assume h: "dbus_transport_get_is_authenticated P w = Inr (True, w1)
              \<and> polite_program P \<and> list_all polite ss \<and> exec n P ss w1 = Inr w2"
    then have "cache_kept (consultations (trace w1)) w1"
      using returned_true_kept by blast
    moreover have "run_keeps (exec n P) (consultations (trace w1))"
      using h by (simp add: exec_keeps)
    ultimately have "result_kept (consultations (trace w1)) (exec n P ss w1)"
      using h unfolding run_keeps_def by blast
    then have "cache_kept (consultations (trace w1)) w2"
      using h by simp
    then show "consultations (trace w2) = consultations (trace w1)
              \<and> (transport w2 = None
                   \<or> dbus_transport_get_is_authenticated P w2 = Inr (True, w2))"
      by (rule kept_answers_true)
  qed
next
  show "\<forall>w1 n w2.
            dbus_transport_get_is_authenticated P w = Inr (True, w1)
            \<and> polite_program P \<and> dbus_transport_disconnect (exec n P) P w1 = Inr w2 \<longrightarrow>
            consultations (trace w2) = consultations (trace w1)
            \<and> (transport w2 = None
                 \<or> dbus_transport_get_is_authenticated P w2 = Inr (True, w2))"
  proof (intro allI impI)
    fix w1 :: "'e world" and n and w2 :: "'e world"
    assume h: "dbus_transport_get_is_authenticated P w = Inr (True, w1)
              \<and> polite_program P \<and> dbus_transport_disconnect (exec n P) P w1 = Inr w2"
    then have "cache_kept (consultations (trace w1)) w1"
      using returned_true_kept by blast
    moreover have "run_keeps (exec n P) (consultations (trace w1))"
      using h by (simp add: exec_keeps)
    ultimately have "result_kept (consultations (trace w1)) (dbus_transport_disconnect (exec n P) P w1)"
      using h kept_disconnect by blast
    then have "cache_kept (consultations (trace w1)) w2"
      using h by simp
    then show "consultations (trace w2) = consultations (trace w1)
              \<and> (transport w2 = None
                   \<or> dbus_transport_get_is_authenticated P w2 = Inr (True, w2))"
      by (rule kept_answers_true)
  qed
qed

lemma polite_unix_program: "polite_program unix_program"
  by (simp add: polite_program_def polite_vtable_def fixture_defs)

theorem C5_is_authenticated_monotonic_witness:
  "dbus_transport_get_is_authenticated unix_program (holding fresh) =
     Inr (False, \<lparr>transport = Some fresh, outside = 1, trace = [(Auth_Do_Work 3, Some fresh)]\<rparr>)
   \<and> dbus_transport_get_is_authenticated unix_program ((holding fresh)\<lparr>outside := 2\<rparr>) =
     Inr (True, \<lparr>transport = Some (fresh\<lparr>authenticated := True\<rparr>), outside = 3,
                 trace = [(Auth_Do_Work 3, Some fresh)]\<rparr>)
   \<and> dbus_transport_get_is_authenticated unix_program
       (holding (fresh\<lparr>authenticated := True\<rparr>)) =
     Inr (True, holding (fresh\<lparr>authenticated := True\<rparr>))
   \<and> (\<exists>w2. exec 2 unix_program [Call_Disconnect, Call_Messages_Pending 1]
              (holding (fresh\<lparr>authenticated := True\<rparr>)) = Inr w2
          \<and> consultations (trace w2) = 0
          \<and> dbus_transport_get_is_authenticated unix_program w2 = Inr (True, w2))
   \<and> (\<exists>w2. dbus_transport_disconnect (exec 1 unix_program) unix_program
              (holding (fresh\<lparr>authenticated := True\<rparr>)) = Inr w2
          \<and> consultations (trace w2) = 0
          \<and> dbus_transport_get_is_authenticated unix_program w2 = Inr (True, w2))"
proof -
  let ?a = "fresh\<lparr>authenticated := True\<rparr>"
  have live: "transport (holding t) = Some t" for t
    by (simp add: holding_def)
  have live2: "transport ((holding fresh)\<lparr>outside := 2\<rparr>) = Some fresh"
    by (simp add: holding_def)
  note not_yet = C5_is_authenticated_monotonic [OF live, of fresh unix_program]
  note now = C5_is_authenticated_monotonic [OF live2, of unix_program]
  note cached = C5_is_authenticated_monotonic [OF live, of ?a unix_program]
  have p1: "dbus_transport_get_is_authenticated unix_program (holding fresh) =
     Inr (False, \<lparr>transport = Some fresh, outside = 1, trace = [(Auth_Do_Work 3, Some fresh)]\<rparr>)"
    using not_yet [THEN conjunct2, THEN conjunct1]
    by (simp add: unix_program_def fresh_def holding_def)
  have p2: "dbus_transport_get_is_authenticated unix_program ((holding fresh)\<lparr>outside := 2\<rparr>) =
     Inr (True, \<lparr>transport = Some (fresh\<lparr>authenticated := True\<rparr>), outside = 3,
                 trace = [(Auth_Do_Work 3, Some fresh)]\<rparr>)"
    using now [THEN conjunct2, THEN conjunct1]
    by (simp add: unix_program_def fresh_def holding_def)
  have p3: "dbus_transport_get_is_authenticated unix_program (holding ?a) = Inr (True, holding ?a)"
    using cached [THEN conjunct1] by (simp add: fresh_def)
  have zero: "consultations (trace (holding ?a)) = 0"
    by (simp add: holding_def)
  obtain w2 where run: "exec 2 unix_program [Call_Disconnect, Call_Messages_Pending 1]
      (holding ?a) = Inr w2" and alive: "transport w2 \<noteq> None"
    by (simp add: api_defs fixture_defs eval_nat_numeral Let_def)
  have p4: "consultations (trace w2) = 0
          \<and> dbus_transport_get_is_authenticated unix_program w2 = Inr (True, w2)"
    using cached [THEN conjunct2, THEN conjunct2, THEN conjunct1, rule_format,
        where ?w1.0 = "holding ?a" and n = 2
          and ss = "[Call_Disconnect, Call_Messages_Pending 1]" and ?w2.0 = w2]
      p3 polite_unix_program run alive zero
    by simp
  obtain w3 where disc: "dbus_transport_disconnect (exec 1 unix_program) unix_program
      (holding ?a) = Inr w3" and alive3: "transport w3 \<noteq> None"
    by (simp add: api_defs fixture_defs Let_def)
  have p5: "consultations (trace w3) = 0
          \<and> dbus_transport_get_is_authenticated unix_program w3 = Inr (True, w3)"
    using cached [THEN conjunct2, THEN conjunct2, THEN conjunct2, rule_format,
        where ?w1.0 = "holding ?a" and n = 1 and ?w2.0 = w3]
      p3 polite_unix_program disc alive3 zero
    by simp
  from p1 p2 p3 p4 p5 run disc show ?thesis by blast
qed

section \<open>Reference counting and finalization\<close>

text \<open>What \<^verbatim>\<open>_dbus_transport_ref\<close> and \<^verbatim>\<open>_dbus_transport_unref\<close> do by the count: a
  sequence of calls by the owner that keeps the count positive changes nothing but the
  count and enters no finalizer, and the \<open>unref\<close> that takes the count from 1 to 0
  enters the subclass \<open>finalize\<close>.\<close>

lemma ref_counts:
  assumes "transport w = Some t"
  shows "refcount t \<noteq> INT_MAX \<Longrightarrow>
           dbus_transport_ref w =
             Inr (w\<lparr>transport := Some (t\<lparr>refcount := refcount t + 1\<rparr>),
                    trace := trace w @ [(Transport_Ref, Some t)]\<rparr>)"
    and "1 < refcount t \<Longrightarrow>
           dbus_transport_unref run P w =
             Inr (w\<lparr>transport := Some (t\<lparr>refcount := refcount t - 1\<rparr>),
                    trace := trace w @ [(Transport_Unref, Some t)]\<rparr>)"
    and "refcount t = 1 \<Longrightarrow> finalize (vtables P (vtable t)) = Some fin \<Longrightarrow>
           dbus_transport_unref run P w =
             run fin (w\<lparr>transport := Some (t\<lparr>refcount := 0\<rparr>),
                        trace := trace w @ [(Transport_Unref, Some t),
                                            (Vtable_Finalize, Some (t\<lparr>refcount := 0\<rparr>))]\<rparr>)"
  using assms
  by (simp_all add: dbus_transport_ref_def dbus_transport_unref_def record_call_def store_def
      Let_def)

lemma no_finalize_while_positive:
  assumes "list_all ref_or_unref ss" and "transport w = Some t"
    and "\<forall>k \<le> length ss. 0 < balance (refcount t) (take k ss)
                        \<and> balance (refcount t) (take k ss) \<le> INT_MAX"
  shows "\<exists>w'. run_stmts (step run P) ss w = Inr w'
           \<and> transport w' = Some (t\<lparr>refcount := balance (refcount t) ss\<rparr>)
           \<and> (\<exists>es. trace w' = trace w @ es \<and> Vtable_Finalize \<notin> set (calls es))"
  using assms
proof (induction ss arbitrary: w t)
  case Nil
  then show ?case by (simp add: calls_def)
next
  case (Cons s ss)
  have one: "0 < balance (refcount t) [s] \<and> balance (refcount t) [s] \<le> INT_MAX"
    using Cons.prems(3)[rule_format, of 1] by simp
  have later: "0 < balance (refcount t) (s # take k ss)
             \<and> balance (refcount t) (s # take k ss) \<le> INT_MAX" if "k \<le> length ss" for k
    using Cons.prems(3)[rule_format, of "Suc k"] that by simp
  from Cons.prems(1) consider "s = Call_Ref" | "s = Call_Unref"
    by (cases s) simp_all
  then show ?case
  proof cases
    case 1
    let ?t = "t\<lparr>refcount := refcount t + 1\<rparr>"
    let ?w = "w\<lparr>transport := Some ?t, trace := trace w @ [(Transport_Ref, Some t)]\<rparr>"
    have st: "step run P s w = Inr ?w"
      using 1 one Cons.prems(2) by (simp add: step_def ref_counts(1))
    have "\<exists>w'. run_stmts (step run P) ss ?w = Inr w'
           \<and> transport w' = Some (?t\<lparr>refcount := balance (refcount ?t) ss\<rparr>)
           \<and> (\<exists>es. trace w' = trace ?w @ es \<and> Vtable_Finalize \<notin> set (calls es))"
      using Cons.prems(1) later 1 by (intro Cons.IH) simp_all
    then show ?thesis
      using st 1 by (auto simp: calls_def)
  next
    case 2
    let ?t = "t\<lparr>refcount := refcount t - 1\<rparr>"
    let ?w = "w\<lparr>transport := Some ?t, trace := trace w @ [(Transport_Unref, Some t)]\<rparr>"
    have st: "step run P s w = Inr ?w"
      using 2 one Cons.prems(2) by (simp add: step_def ref_counts(2))
    have "\<exists>w'. run_stmts (step run P) ss ?w = Inr w'
           \<and> transport w' = Some (?t\<lparr>refcount := balance (refcount ?t) ss\<rparr>)
           \<and> (\<exists>es. trace w' = trace ?w @ es \<and> Vtable_Finalize \<notin> set (calls es))"
      using Cons.prems(1) later 2 by (intro Cons.IH) simp_all
    then show ?thesis
      using st 2 by (auto simp: calls_def)
  qed
qed

text \<open>
  Claim C1 says that over any sequence of ref and unref calls the subclass \<open>finalize\<close>
  is entered exactly once, at the unref that makes the unrefs one more than the refs.
  The code does not keep this for a transport that is still connected when that unref
  comes.  Take the transport right after \<^verbatim>\<open>_dbus_transport_init_base\<close> and a subclass
  whose \<open>finalize\<close> chains up to \<^verbatim>\<open>_dbus_transport_finalize_base\<close> and then frees the
  transport, as the header asks of it.  One \<^verbatim>\<open>_dbus_transport_unref\<close> by the owner takes
  the count to 0 and enters \<open>finalize\<close>; \<^verbatim>\<open>_dbus_transport_finalize_base\<close> finds the
  transport connected and calls \<^verbatim>\<open>_dbus_transport_disconnect\<close>, whose acquiring macro
  takes the count to 1 and whose releasing macro takes it to 0 again, so that
  \<^verbatim>\<open>_dbus_transport_unref\<close> enters \<open>finalize\<close> a second time, inside the first.  The
  theorem is the sequence of calls made, for every fuel that lets the run finish.
\<close>

theorem C1_finalize_twice:
  "calls (trace_of (exec (Suc (Suc (Suc n))) unix_program [Call_Unref] constructed)) =
     [Message_Loader_New, Auth_Client_New,
      Transport_Unref, Vtable_Finalize,
      Transport_Ref, Vtable_Disconnect, Transport_Unref, Vtable_Finalize,
      Message_Loader_Unref 1, Auth_Unref 3, Free]
   \<and> count_list
        (calls (trace_of (exec (Suc (Suc (Suc n))) unix_program [Call_Unref] constructed)))
        Vtable_Finalize = 2"
  by (simp add: constructed_eq api_defs fixture_defs calls_def Let_def)

text \<open>The inner finalizer has freed the transport, and the outer one goes on to read
  the loader out of it.  When the owner disconnects before the last unref, the finalizer
  is entered once.\<close>

lemma finalize_twice_then_fault:
  "\<exists>tr. exec (Suc (Suc (Suc n))) unix_program [Call_Unref] constructed =
     Inl (Use_After_Free, tr)"
  by (simp add: constructed_eq api_defs fixture_defs calls_def Let_def)

lemma finalize_once_when_disconnected:
  "calls (trace_of (exec (Suc (Suc (Suc n))) unix_program [Call_Disconnect, Call_Unref]
      constructed)) =
     [Message_Loader_New, Auth_Client_New,
      Transport_Ref, Vtable_Disconnect, Transport_Unref,
      Transport_Unref, Vtable_Finalize,
      Message_Loader_Unref 1, Auth_Unref 3, Free]"
  by (simp add: constructed_eq api_defs fixture_defs calls_def Let_def)

end
